theory Spec2Isabelle
  imports Complex_Main
begin

section \<open>Python strings\<close>

text \<open>
  A Python \<open>str\<close> is modelled as a \<open>string\<close>, each \<open>char\<close> read as one code point
  below 256 (the Latin-1 range, which \<open>str.lower\<close> maps into itself). The four string
  methods the orchestrator calls are written out: \<open>isspace\<close>, \<open>strip\<close>, \<open>lower\<close>,
  \<open>split\<close> without arguments and \<open>sep.join\<close>.
\<close>

definition isspace :: "char \<Rightarrow> bool" where
  "isspace c =
     (let n = (of_char c :: nat)
      in (9 \<le> n \<and> n \<le> 13) \<or> (28 \<le> n \<and> n \<le> 32) \<or> n = 133 \<or> n = 160)"

definition str_strip :: "string \<Rightarrow> string" where
  "str_strip s = rev (dropWhile isspace (rev (dropWhile isspace s)))"

definition lower_char :: "char \<Rightarrow> char" where
  "lower_char c =
     (let n = (of_char c :: nat)
      in if (65 \<le> n \<and> n \<le> 90) \<or> (192 \<le> n \<and> n \<le> 222 \<and> n \<noteq> 215)
         then char_of (n + 32) else c)"

definition str_lower :: "string \<Rightarrow> string" where
  "str_lower s = map lower_char s"

text \<open>
  \<open>s.split()\<close>: runs of whitespace separate the words, and no empty word is produced.
  \<open>split_from w s\<close> scans \<open>s\<close> with the word \<open>w\<close> read so far.
\<close>

fun split_from :: "string \<Rightarrow> string \<Rightarrow> string list" where
  "split_from w [] = (if w = [] then [] else [w])"
| "split_from w (c # cs) =
     (if isspace c then (if w = [] then split_from [] cs else w # split_from [] cs)
      else split_from (w @ [c]) cs)"

definition str_split :: "string \<Rightarrow> string list" where
  "str_split s = split_from [] s"

fun str_join :: "string \<Rightarrow> string list \<Rightarrow> string" where
  "str_join sep [] = []"
| "str_join sep [x] = x"
| "str_join sep (x # y # ys) = x @ sep @ str_join sep (y # ys)"

text \<open>\<open>str(n)\<close> for a non-negative integer, as the f-string \<open>{i+1}\<close> formats it.\<close>

fun str_nat :: "nat \<Rightarrow> string" where
  "str_nat n =
     (if n < 10 then [''0123456789'' ! n]
      else str_nat (n div 10) @ [''0123456789'' ! (n mod 10)])"

text \<open>The slice \<open>xs[i:j]\<close> for \<open>0 \<le> i \<le> j\<close>; Python clips it at the end of the list.\<close>

definition slice :: "'a list \<Rightarrow> nat \<Rightarrow> nat \<Rightarrow> 'a list" where
  "slice xs i j = take (j - i) (drop i xs)"

section \<open>Data model\<close>

text \<open>
  The documents of \<open>retrieve_node\<close> are dicts with the keys \<open>id\<close>, \<open>content\<close>,
  \<open>source\<close>, \<open>score\<close>; the entries of \<open>sources\<close> are dicts with \<open>id\<close>, \<open>source\<close>,
  \<open>score\<close>. A score is only ever copied, never computed with: it is kept as the
  rational its decimal literal denotes.
\<close>

record scored_doc =
  doc_id :: string
  doc_content :: string
  doc_source :: string
  doc_score :: rat

record source_ref =
  ref_id :: string
  ref_source :: string
  ref_score :: rat

text \<open>
  The dataclass \<open>GraphState\<close>. The constructor \<open>GraphState_init\<close> is the generated
  \<open>__init__\<close> followed by \<open>__post_init__\<close>, called as the two entry points call it:
  with \<open>org_id\<close>, \<open>conversation_id\<close>, \<open>query\<close> and \<open>tools\<close>, every other field at its
  default, and each \<open>None\<close> replaced by an empty container.
\<close>

record GraphState =
  org_id :: string
  conversation_id :: string
  query :: string
  route :: string
  retrieved_docs :: "scored_doc list"
  answer :: string
  sources :: "source_ref list"
  metadata :: "string \<rightharpoonup> string"
  tools :: "string list"

definition GraphState_init ::
  "string \<Rightarrow> string \<Rightarrow> string \<Rightarrow> string list option \<Rightarrow> GraphState" where
  "GraphState_init org conv q ts =
     \<lparr> org_id = org, conversation_id = conv, query = q, route = '''',
       retrieved_docs = [], answer = '''', sources = [], metadata = Map.empty,
       tools = (case ts of None \<Rightarrow> [] | Some xs \<Rightarrow> xs) \<rparr>"

text \<open>
  The argument \<open>ctx\<close> of the entry points: the dict the callers build, with the keys
  \<open>org_id\<close> and \<open>conversation_id\<close> (read with \<open>ctx[...]\<close>) and the optional key
  \<open>tools\<close> (read with \<open>ctx.get("tools", [])\<close>; \<open>None\<close> stands for a missing key and
  for the value \<open>None\<close>, which \<open>__post_init__\<close> treats alike).
\<close>

record ctx =
  ctx_org_id :: string
  ctx_conversation_id :: string
  ctx_tools :: "string list option"

section \<open>The LLM provider\<close>

text \<open>
  The vendor libraries are outside the repository. A call of
  \<open>client.chat.completions.create\<close> or \<open>client.messages.create\<close>, together with the
  import of the library and the read of the response's text, either yields a text or
  raises an exception \<open>e\<close>, of which the code uses \<open>str(e)\<close> only. The text is a
  \<open>str\<close>, as the methods' return annotation says.
\<close>

datatype outcome = Returned string | Raised string

record kwargs =
  kw_model :: "string option"
  kw_temperature :: "rat option"
  kw_max_tokens :: "int option"

record chat_request =
  req_model :: string
  req_system :: string
  req_user :: string
  req_temperature :: "rat option"
  req_max_tokens :: int

text \<open>
  The environment of a run: the variable \<open>LLM_PROVIDER\<close>, the two vendor services, and
  whether \<open>langgraph\<close> can be imported (\<open>StateGraph\<close> is \<open>None\<close> when it cannot).
\<close>

record env =
  LLM_PROVIDER :: "string option"
  openai_create :: "chat_request \<Rightarrow> outcome"
  anthropic_create :: "chat_request \<Rightarrow> outcome"
  langgraph_installed :: bool

definition max_tokens_only :: "int \<Rightarrow> kwargs" where
  "max_tokens_only n = \<lparr> kw_model = None, kw_temperature = None, kw_max_tokens = Some n \<rparr>"

definition kwargs_get :: "'a option \<Rightarrow> 'a \<Rightarrow> 'a" where
  "kwargs_get v d = (case v of None \<Rightarrow> d | Some x \<Rightarrow> x)"

definition provider :: "env \<Rightarrow> string" where
  "provider e = kwargs_get (LLM_PROVIDER e) ''openai''"

text \<open>The arguments each private method passes to its vendor's \<open>create\<close>.\<close>

definition openai_request :: "string \<Rightarrow> string \<Rightarrow> kwargs \<Rightarrow> chat_request" where
  "openai_request system user kw =
     \<lparr> req_model = kwargs_get (kw_model kw) ''gpt-4o-mini'',
       req_system = system, req_user = user,
       req_temperature = Some (kwargs_get (kw_temperature kw) (7 / 10)),
       req_max_tokens = kwargs_get (kw_max_tokens kw) 1000 \<rparr>"

definition anthropic_request :: "string \<Rightarrow> string \<Rightarrow> kwargs \<Rightarrow> chat_request" where
  "anthropic_request system user kw =
     \<lparr> req_model = kwargs_get (kw_model kw) ''claude-3-5-sonnet-20241022'',
       req_system = system, req_user = user,
       req_temperature = None,
       req_max_tokens = kwargs_get (kw_max_tokens kw) 1000 \<rparr>"

text \<open>\<open>try: ... return text; except Exception as e: return f"Error calling ...: {str(e)}"\<close>\<close>

definition openai_completion :: "env \<Rightarrow> string \<Rightarrow> string \<Rightarrow> kwargs \<Rightarrow> string" where
  "openai_completion e system user kw =
     (case openai_create e (openai_request system user kw) of
        Returned text \<Rightarrow> text
      | Raised msg \<Rightarrow> ''Error calling OpenAI: '' @ msg)"

definition anthropic_completion :: "env \<Rightarrow> string \<Rightarrow> string \<Rightarrow> kwargs \<Rightarrow> string" where
  "anthropic_completion e system user kw =
     (case anthropic_create e (anthropic_request system user kw) of
        Returned text \<Rightarrow> text
      | Raised msg \<Rightarrow> ''Error calling Anthropic: '' @ msg)"

definition completion :: "env \<Rightarrow> string \<Rightarrow> string \<Rightarrow> kwargs \<Rightarrow> string" where
  "completion e system user kw =
     (if provider e = ''openai'' then openai_completion e system user kw
      else if provider e = ''anthropic'' then anthropic_completion e system user kw
      else openai_completion e system user kw)"

section \<open>Agent nodes\<close>

definition router_system :: string where
  "router_system =
     ''You are a routing agent. Classify the user's query into one of:\<newline>'' @
     ''- 'qa': Question answering from knowledge base\<newline>'' @
     ''- 'summarize': Summarization task\<newline>'' @
     ''- 'action': Action/task execution (send email, create task, etc.)\<newline>'' @
     ''\<newline>'' @
     ''Respond with just the category name.''"

definition router_node :: "env \<Rightarrow> GraphState \<Rightarrow> GraphState" where
  "router_node e state =
     (let r = completion e router_system (query state) (max_tokens_only 50);
          r = str_lower (str_strip r);
          r = (if r \<notin> set [''qa'', ''summarize'', ''action''] then ''qa'' else r)
      in state \<lparr> route := r, metadata := (metadata state)(''route'' \<mapsto> r) \<rparr>)"

definition mock_docs :: "scored_doc list" where
  "mock_docs =
     [ \<lparr> doc_id = ''doc1'',
         doc_content = ''AutoBrain is a knowledge assistant that helps teams stay organized and informed.'',
         doc_source = ''docs'', doc_score = 95 / 100 \<rparr>,
       \<lparr> doc_id = ''doc2'',
         doc_content = ''The system uses RAG (Retrieval Augmented Generation) to provide accurate answers.'',
         doc_source = ''docs'', doc_score = 87 / 100 \<rparr> ]"

definition source_of :: "scored_doc \<Rightarrow> source_ref" where
  "source_of d = \<lparr> ref_id = doc_id d, ref_source = doc_source d, ref_score = doc_score d \<rparr>"

definition retrieve_node :: "GraphState \<Rightarrow> GraphState" where
  "retrieve_node state =
     state \<lparr> retrieved_docs := mock_docs, sources := map source_of mock_docs \<rparr>"

definition synthesize_system :: string where
  "synthesize_system =
     ''You are a helpful AI assistant. Use the provided context to answer the user's question.\<newline>'' @
     ''If the context doesn't contain relevant information, say so clearly.\<newline>'' @
     ''Provide concise, accurate answers with citations to source documents.''"

text \<open>\<open>[f"Document {i+1}: {doc['content']}" for i, doc in enumerate(docs)]\<close>\<close>

definition document_lines :: "scored_doc list \<Rightarrow> string list" where
  "document_lines docs =
     map (\<lambda>(i, doc). ''Document '' @ str_nat (i + 1) @ '': '' @ doc_content doc)
         (enumerate 0 docs)"

definition synthesize_prompt :: "GraphState \<Rightarrow> string" where
  "synthesize_prompt state =
     (let context = str_join ''\<newline>\<newline>'' (document_lines (retrieved_docs state))
      in ''Context:\<newline>'' @ context @ ''\<newline>\<newline>Question: '' @ query state @
         ''\<newline>\<newline>Provide a helpful answer based on the context above.'')"

definition synthesize_node :: "env \<Rightarrow> GraphState \<Rightarrow> GraphState" where
  "synthesize_node e state =
     (let a = completion e synthesize_system (synthesize_prompt state) (max_tokens_only 500)
      in state \<lparr> answer := a \<rparr>)"

definition action_system :: string where
  "action_system =
     ''You are an action execution agent. Based on the user's request, \<newline>'' @
     ''determine what action to take and provide a response.''"

definition action_node :: "env \<Rightarrow> GraphState \<Rightarrow> GraphState" where
  "action_node e state =
     (let a = completion e action_system
                (''User wants to: '' @ query state @ ''\<newline>\<newline>Simulate the action and respond.'')
                (max_tokens_only 300)
      in state \<lparr> answer := a, metadata := (metadata state)(''action_taken'' \<mapsto> ''simulated'') \<rparr>)"

section \<open>The graph\<close>

text \<open>
  \<open>build_graph\<close> declares the workflow to the \<open>langgraph\<close> library, which is outside
  the repository. The declaration is kept as data, call by call, and the library's
  \<open>ainvoke\<close> is modelled by what the declaration means: start at the entry point, run
  the node, follow the node's conditional edge (the value of its condition, looked up in
  its path map) or else its plain edge, stop at \<open>END\<close>; the library gives up with
  \<open>GraphRecursionError\<close> after \<open>recursion_limit\<close> steps, 25 unless configured.
  \<open>ainvoke\<close> below computes the final values of the state's fields; the library hands
  them back as a dict, not as a \<open>GraphState\<close>, which \<open>run_graph_value\<close> records.
\<close>

datatype target = Node string | END

record StateGraph =
  nodes :: "(string \<times> (GraphState \<Rightarrow> GraphState)) list"
  entry_point :: "string option"
  conditional_edges ::
    "(string \<times> (GraphState \<Rightarrow> target) \<times> (target \<times> target) list) list"
  edges :: "(string \<times> target) list"

definition new_StateGraph :: StateGraph where
  "new_StateGraph = \<lparr> nodes = [], entry_point = None, conditional_edges = [], edges = [] \<rparr>"

definition add_node :: "string \<Rightarrow> (GraphState \<Rightarrow> GraphState) \<Rightarrow> StateGraph \<Rightarrow> StateGraph" where
  "add_node name f g = g \<lparr> nodes := nodes g @ [(name, f)] \<rparr>"

definition set_entry_point :: "string \<Rightarrow> StateGraph \<Rightarrow> StateGraph" where
  "set_entry_point name g = g \<lparr> entry_point := Some name \<rparr>"

definition add_conditional_edges ::
  "string \<Rightarrow> (GraphState \<Rightarrow> target) \<Rightarrow> (target \<times> target) list \<Rightarrow> StateGraph \<Rightarrow> StateGraph" where
  "add_conditional_edges name cond path_map g =
     g \<lparr> conditional_edges := conditional_edges g @ [(name, cond, path_map)] \<rparr>"

definition add_edge :: "string \<Rightarrow> target \<Rightarrow> StateGraph \<Rightarrow> StateGraph" where
  "add_edge name t g = g \<lparr> edges := edges g @ [(name, t)] \<rparr>"

datatype run_error = GraphRecursionError | InvalidGraph string | AttributeError string

fun run_from :: "nat \<Rightarrow> StateGraph \<Rightarrow> target \<Rightarrow> GraphState \<Rightarrow> run_error + GraphState" where
  "run_from fuel g END state = Inr state"
| "run_from 0 g (Node name) state = Inl GraphRecursionError"
| "run_from (Suc fuel) g (Node name) state =
     (case map_of (nodes g) name of
        None \<Rightarrow> Inl (InvalidGraph name)
      | Some f \<Rightarrow>
          (let state' = f state in
           case map_of (conditional_edges g) name of
             Some (cond, path_map) \<Rightarrow>
               (case map_of path_map (cond state') of
                  None \<Rightarrow> Inl (InvalidGraph name)
                | Some t \<Rightarrow> run_from fuel g t state')
           | None \<Rightarrow>
               (case map_of (edges g) name of
                  None \<Rightarrow> Inr state'
                | Some t \<Rightarrow> run_from fuel g t state')))"

definition recursion_limit :: nat where
  "recursion_limit = 25"

definition ainvoke :: "StateGraph \<Rightarrow> GraphState \<Rightarrow> run_error + GraphState" where
  "ainvoke g state =
     (case entry_point g of
        None \<Rightarrow> Inl (InvalidGraph [])
      | Some name \<Rightarrow> run_from recursion_limit g (Node name) state)"

definition route_condition :: "GraphState \<Rightarrow> target" where
  "route_condition state =
     (if route state = ''qa'' then Node ''retrieve''
      else if route state = ''summarize'' then Node ''synthesize''
      else if route state = ''action'' then Node ''action''
      else END)"

definition build_graph :: "env \<Rightarrow> StateGraph option" where
  "build_graph e =
     (if \<not> langgraph_installed e then None
      else
        (let graph = new_StateGraph;
             graph = add_node ''router'' (router_node e) graph;
             graph = add_node ''retrieve'' retrieve_node graph;
             graph = add_node ''synthesize'' (synthesize_node e) graph;
             graph = add_node ''action'' (action_node e) graph;
             graph = set_entry_point ''router'' graph;
             graph = add_conditional_edges ''router'' route_condition
                       [ (Node ''retrieve'', Node ''retrieve''),
                         (Node ''synthesize'', Node ''synthesize''),
                         (Node ''action'', Node ''action''),
                         (END, END) ] graph;
             graph = add_edge ''retrieve'' (Node ''synthesize'') graph;
             graph = add_edge ''synthesize'' END graph;
             graph = add_edge ''action'' END graph
         in Some graph))"

section \<open>Main execution functions\<close>

definition initial_state :: "ctx \<Rightarrow> string \<Rightarrow> GraphState" where
  "initial_state c q =
     GraphState_init (ctx_org_id c) (ctx_conversation_id c) q
       (Some (case ctx_tools c of None \<Rightarrow> [] | Some ts \<Rightarrow> ts))"

text \<open>
  The value of the variable \<open>state\<close> when \<open>run_graph\<close> builds its result: the
  \<open>GraphState\<close> instance the fallback pipeline leaves, or the dict \<open>graph.ainvoke\<close>
  returns, whose keys are the fields of the final state.
\<close>

datatype state_value = Instance GraphState | Dict GraphState

definition run_graph_value :: "env \<Rightarrow> ctx \<Rightarrow> string \<Rightarrow> run_error + state_value" where
  "run_graph_value e c q =
     (let state = initial_state c q in
      case build_graph e of
        None \<Rightarrow>
          (let state = router_node e state in
           if route state \<in> set [''qa'', ''summarize'']
           then (let state = retrieve_node state;
                     state = synthesize_node e state
                 in Inr (Instance state))
           else (let state = action_node e state in Inr (Instance state)))
      | Some graph \<Rightarrow>
          (case ainvoke graph state of
             Inl err \<Rightarrow> Inl err
           | Inr values \<Rightarrow> Inr (Dict values)))"

text \<open>The final state of the batch run: the fields \<open>state\<close> holds, in either form.\<close>

fun fields_of :: "state_value \<Rightarrow> GraphState" where
  "fields_of (Instance state) = state"
| "fields_of (Dict values) = values"

definition run_graph_state :: "env \<Rightarrow> ctx \<Rightarrow> string \<Rightarrow> run_error + GraphState" where
  "run_graph_state e c q =
     (case run_graph_value e c q of Inl err \<Rightarrow> Inl err | Inr v \<Rightarrow> Inr (fields_of v))"

record result =
  res_answer :: string
  res_sources :: "source_ref list"
  res_metadata :: "string \<rightharpoonup> string"

definition result_of :: "GraphState \<Rightarrow> result" where
  "result_of state =
     \<lparr> res_answer = answer state, res_sources = sources state, res_metadata = metadata state \<rparr>"

text \<open>
  The return statement reads \<open>state.answer\<close>, \<open>state.sources\<close> and \<open>state.metadata\<close> as
  attributes. A dict has no attribute \<open>answer\<close>: on the dict of \<open>graph.ainvoke\<close> the
  first read raises \<open>AttributeError\<close>.
\<close>

fun return_result :: "state_value \<Rightarrow> run_error + result" where
  "return_result (Instance state) = Inr (result_of state)"
| "return_result (Dict values) = Inl (AttributeError ''answer'')"

definition run_graph :: "env \<Rightarrow> ctx \<Rightarrow> string \<Rightarrow> run_error + result" where
  "run_graph e c q =
     (case run_graph_value e c q of Inl err \<Rightarrow> Inl err | Inr v \<Rightarrow> return_result v)"

text \<open>
  An event of the stream is a dict with the keys \<open>type\<close> and \<open>content\<close> and, in the
  last event only, \<open>metadata\<close>. The content is a text or the list of sources.
\<close>

datatype content = Text string | Sources "source_ref list"

datatype event =
  Event (ev_type: string) (ev_content: content) (ev_metadata: "(string \<rightharpoonup> string) option")

text \<open>
  \<open>for i in range(0, len(words), 5): yield answer(" ".join(words[i:i+5]))\<close>,
  from the index \<open>i\<close> on.
\<close>

function answer_events :: "string list \<Rightarrow> nat \<Rightarrow> event list" where
  "answer_events words i =
     (if i < length words
      then Event ''answer'' (Text (str_join '' '' (slice words i (i + 5)))) None
             # answer_events words (i + 5)
      else [])"
  by pat_completeness auto
termination
  by (relation "measure (\<lambda>(words, i). length words - i)") auto

text \<open>
  The generator \<open>run_graph_stream\<close>, consumed to its end: the list of the events it
  yields, in order, with the state the last node left.
\<close>

definition run_graph_stream_state :: "env \<Rightarrow> ctx \<Rightarrow> string \<Rightarrow> event list \<times> GraphState" where
  "run_graph_stream_state e c q =
     (let state = initial_state c q;
          out = [Event ''routing'' (Text ''Analyzing your query...'') None];
          state = router_node e state;
          out = out @ [Event ''route'' (Text (''Route: '' @ route state)) None];
          (out, state) =
            (if route state \<in> set [''qa'', ''summarize'']
             then (let out = out @ [Event ''retrieving'' (Text ''Searching knowledge base...'') None];
                       state = retrieve_node state;
                       out = out @ [Event ''sources'' (Sources (sources state)) None]
                   in (out, state))
             else (out, state));
          out = out @ [Event ''thinking'' (Text ''Generating answer...'') None];
          state = (if route state \<in> set [''qa'', ''summarize'']
                   then synthesize_node e state
                   else action_node e state);
          words = str_split (answer state);
          out = out @ answer_events words 0;
          out = out @ [Event ''complete'' (Text (answer state)) (Some (metadata state))]
      in (out, state))"

definition run_graph_stream :: "env \<Rightarrow> ctx \<Rightarrow> string \<Rightarrow> event list" where
  "run_graph_stream e c q = fst (run_graph_stream_state e c q)"

declare answer_events.simps [simp del]

section \<open>Reading a run\<close>

text \<open>
  The graph \<open>build_graph\<close> declares when \<open>langgraph\<close> is installed, written out.
\<close>

definition the_graph :: "env \<Rightarrow> StateGraph" where
  "the_graph e =
     \<lparr> nodes = [(''router'', router_node e), (''retrieve'', retrieve_node),
                (''synthesize'', synthesize_node e), (''action'', action_node e)],
       entry_point = Some ''router'',
       conditional_edges =
         [(''router'', route_condition,
           [(Node ''retrieve'', Node ''retrieve''), (Node ''synthesize'', Node ''synthesize''),
            (Node ''action'', Node ''action''), (END, END)])],
       edges = [(''retrieve'', Node ''synthesize''), (''synthesize'', END), (''action'', END)] \<rparr>"

text \<open>The state the last node of the streaming run leaves.\<close>

definition stream_final :: "env \<Rightarrow> ctx \<Rightarrow> string \<Rightarrow> GraphState" where
  "stream_final e c q = snd (run_graph_stream_state e c q)"

text \<open>
  What a consumer reads off a stream: the contents of its \<open>answer\<close> events in order,
  its events of one type, and the answer, sources and metadata it carries (the content
  and metadata of its last event, the content of its \<open>sources\<close> events).
\<close>

fun chunk_of :: "event \<Rightarrow> string list" where
  "chunk_of (Event ty (Text t) m) = (if ty = ''answer'' then [t] else [])"
| "chunk_of (Event ty (Sources xs) m) = []"

definition answer_chunks :: "event list \<Rightarrow> string list" where
  "answer_chunks evs = concat (map chunk_of evs)"

definition events_of_type :: "string \<Rightarrow> event list \<Rightarrow> event list" where
  "events_of_type ty evs = filter (\<lambda>ev. ev_type ev = ty) evs"

fun sources_of :: "event \<Rightarrow> source_ref list" where
  "sources_of (Event ty (Sources xs) m) = (if ty = ''sources'' then xs else [])"
| "sources_of (Event ty (Text t) m) = []"

fun text_of :: "content \<Rightarrow> string" where
  "text_of (Text t) = t"
| "text_of (Sources xs) = []"

definition stream_result :: "event list \<Rightarrow> result" where
  "stream_result evs =
     \<lparr> res_answer = text_of (ev_content (last evs)),
       res_sources = concat (map sources_of evs),
       res_metadata = (case ev_metadata (last evs) of None \<Rightarrow> Map.empty | Some m \<Rightarrow> m) \<rparr>"

text \<open>
  The states of a run: the state the entry point builds, and the state any node leaves
  when started in a state of the run. Every state of the batch run (with or without
  \<open>langgraph\<close>) and of the streaming run is of this kind.
\<close>

inductive reachable :: "env \<Rightarrow> ctx \<Rightarrow> string \<Rightarrow> GraphState \<Rightarrow> bool" for e c q where
  start: "reachable e c q (initial_state c q)"
| router: "reachable e c q s \<Longrightarrow> reachable e c q (router_node e s)"
| retrieve: "reachable e c q s \<Longrightarrow> reachable e c q (retrieve_node s)"
| synthesize: "reachable e c q s \<Longrightarrow> reachable e c q (synthesize_node e s)"
| action: "reachable e c q s \<Longrightarrow> reachable e c q (action_node e s)"

text \<open>
  Stub collaborators for concrete runs. \<open>stub_env lg label text\<close> answers the Router's
  call (the one capped at 50 tokens) with \<open>label\<close> and every other call with \<open>text\<close>;
  \<open>failing_env p lg msg\<close> selects provider \<open>p\<close> and raises \<open>msg\<close> on every call.
\<close>

definition stub_env :: "bool \<Rightarrow> string \<Rightarrow> string \<Rightarrow> env" where
  "stub_env lg label text =
     \<lparr> LLM_PROVIDER = None,
       openai_create = (\<lambda>req. Returned (if req_max_tokens req = 50 then label else text)),
       anthropic_create = (\<lambda>req. Raised ''not configured''),
       langgraph_installed = lg \<rparr>"

definition failing_env :: "string option \<Rightarrow> bool \<Rightarrow> string \<Rightarrow> env" where
  "failing_env p lg msg =
     \<lparr> LLM_PROVIDER = p,
       openai_create = (\<lambda>req. Raised msg),
       anthropic_create = (\<lambda>req. Raised msg),
       langgraph_installed = lg \<rparr>"

definition demo_ctx :: ctx where
  "demo_ctx = \<lparr> ctx_org_id = ''demo-org'', ctx_conversation_id = ''c1'', ctx_tools = None \<rparr>"

text \<open>
  The Router's normalisation in the words of its contract: a text is trimmed of
  whitespace (the code points Python's \<open>str.isspace\<close> accepts below 256) and compared
  with a label without regard to case (an ASCII capital letter, 65 to 90, stands for the
  lower-case letter 32 above it).
\<close>

definition only_whitespace :: "string \<Rightarrow> bool" where
  "only_whitespace xs =
     list_all (\<lambda>ch. (of_char ch :: nat) \<in> set [9, 10, 11, 12, 13, 28, 29, 30, 31, 32, 133, 160]) xs"

definition capital_of :: "char \<Rightarrow> char \<Rightarrow> bool" where
  "capital_of c d =
     (65 \<le> (of_char c :: nat) \<and> (of_char c :: nat) \<le> 90 \<and> (of_char d :: nat) = of_char c + 32)"

definition same_ignoring_case :: "string \<Rightarrow> string \<Rightarrow> bool" where
  "same_ignoring_case core l = list_all2 (\<lambda>c d. c = d \<or> capital_of c d) core l"

definition lower_letter :: "char \<Rightarrow> bool" where
  "lower_letter d = (97 \<le> (of_char d :: nat) \<and> (of_char d :: nat) \<le> 122)"

section \<open>Strings: splitting and joining\<close>

lemma split_from_word:
  "\<forall>ch\<in>set w. \<not> isspace ch \<Longrightarrow> split_from u (w @ rest) = split_from (u @ w) rest"
  by (induction w arbitrary: u) simp_all

lemma split_from_join:
  "\<forall>w\<in>set ws. w \<noteq> [] \<and> (\<forall>ch\<in>set w. \<not> isspace ch) \<Longrightarrow>
   split_from [] (str_join '' '' ws) = ws"
proof (induction "'' ''" ws rule: str_join.induct)
  case 1
  then show ?case by simp
next
  case (2 x)
  then have "split_from [] (x @ []) = split_from ([] @ x) []"
    by (intro split_from_word) simp
  with 2 show ?case by simp
next
  case (3 x y ys)
  have sp: "isspace CHR '' ''" by (simp add: isspace_def)
  from 3 have "split_from [] (x @ ('' '' @ str_join '' '' (y # ys)))
      = split_from ([] @ x) ('' '' @ str_join '' '' (y # ys))"
    by (intro split_from_word) simp
  with 3 sp show ?case by simp
qed

lemma split_from_words:
  "\<forall>ch\<in>set u. \<not> isspace ch \<Longrightarrow>
   \<forall>w\<in>set (split_from u s). w \<noteq> [] \<and> (\<forall>ch\<in>set w. \<not> isspace ch)"
proof (induction s arbitrary: u)
  case Nil
  then show ?case by simp
next
  case (Cons c cs)
  show ?case
  proof (cases "isspace c")
    case True
    have "\<forall>w\<in>set (split_from [] cs). w \<noteq> [] \<and> (\<forall>ch\<in>set w. \<not> isspace ch)"
      by (rule Cons.IH) simp
    with True Cons.prems show ?thesis by simp
  next
    case False
    with Cons.prems have "\<forall>ch\<in>set (u @ [c]). \<not> isspace ch" by simp
    then have "\<forall>w\<in>set (split_from (u @ [c]) cs). w \<noteq> [] \<and> (\<forall>ch\<in>set w. \<not> isspace ch)"
      by (rule Cons.IH)
    with False show ?thesis by simp
  qed
qed

lemma split_from_blank:
  "\<forall>ch\<in>set s. isspace ch \<Longrightarrow> split_from [] s = []"
  by (induction s) simp_all

lemma str_join_Cons: "str_join sep (x # xs) = (if xs = [] then x else x @ sep @ str_join sep xs)"
  by (cases xs) simp_all

lemma str_join_append:
  "xs \<noteq> [] \<Longrightarrow> ys \<noteq> [] \<Longrightarrow> str_join sep (xs @ ys) = str_join sep xs @ sep @ str_join sep ys"
  by (induction sep xs rule: str_join.induct) (simp_all add: str_join_Cons)


section \<open>The streaming run\<close>

lemma route_retrieve_node: "route (retrieve_node s) = route s"
  by (simp add: retrieve_node_def)

lemma stream_final_eq:
  "stream_final e c q =
     (let s1 = router_node e (initial_state c q)
      in if route s1 \<in> {''qa'', ''summarize''}
         then synthesize_node e (retrieve_node s1) else action_node e s1)"
  by (simp add: stream_final_def run_graph_stream_state_def Let_def route_retrieve_node)

lemma stream_events_eq:
  "run_graph_stream e c q =
     [Event ''routing'' (Text ''Analyzing your query...'') None,
      Event ''route'' (Text (''Route: '' @ route (router_node e (initial_state c q)))) None]
     @ (if route (router_node e (initial_state c q)) \<in> {''qa'', ''summarize''}
        then [Event ''retrieving'' (Text ''Searching knowledge base...'') None,
              Event ''sources'' (Sources (map source_of mock_docs)) None]
        else [])
     @ [Event ''thinking'' (Text ''Generating answer...'') None]
     @ answer_events (str_split (answer (stream_final e c q))) 0
     @ [Event ''complete'' (Text (answer (stream_final e c q)))
          (Some (metadata (stream_final e c q)))]"
  by (simp add: run_graph_stream_def stream_final_def run_graph_stream_state_def Let_def
      route_retrieve_node retrieve_node_def)

lemma chunk_count: "0 < n \<Longrightarrow> Suc ((n - 5 + 4) div 5) = (n + 4) div (5::nat)"
proof (cases "5 \<le> n")
  case True
  then obtain m where "n = m + 5" by (metis le_add_diff_inverse2)
  then show ?thesis by simp
next
  case False
  assume "0 < n"
  with False have "n - 5 = 0" "5 \<le> n + 4" "n + 4 < 10" by simp_all
  then show ?thesis by (simp add: div_nat_eqI)
qed

lemma answer_events_length:
  "length (answer_events ws i) = (length ws - i + 4) div 5"
proof (induction ws i rule: answer_events.induct)
  case (1 ws i)
  show ?case
  proof (cases "i < length ws")
    case True
    then have "length (answer_events ws i) = Suc (length (answer_events ws (i + 5)))"
      by (subst answer_events.simps) simp
    also have "\<dots> = Suc ((length ws - i - 5 + 4) div 5)"
      using "1.IH" [OF True] by simp
    also have "\<dots> = (length ws - i + 4) div 5"
      using True by (intro chunk_count) simp
    finally show ?thesis .
  next
    case False
    then show ?thesis by (subst answer_events.simps) simp
  qed
qed

lemma answer_events_types:
  "map ev_type (answer_events ws i) = replicate (length (answer_events ws i)) ''answer''"
proof (induction ws i rule: answer_events.induct)
  case (1 ws i)
  show ?case
  proof (cases "i < length ws")
    case True
    then have unf: "answer_events ws i =
        Event ''answer'' (Text (str_join '' '' (slice ws i (i + 5)))) None
          # answer_events ws (i + 5)"
      by (subst answer_events.simps) simp
    show ?thesis using "1.IH" [OF True] by (simp add: unf)
  next
    case False
    then have "answer_events ws i = []" by (subst answer_events.simps) simp
    then show ?thesis by simp
  qed
qed

lemma answer_events_nth:
  "k < length (answer_events ws i) \<Longrightarrow>
   answer_events ws i ! k =
     Event ''answer'' (Text (str_join '' '' (slice ws (i + 5 * k) (i + 5 * k + 5)))) None"
proof (induction ws i arbitrary: k rule: answer_events.induct)
  case (1 ws i)
  show ?case
  proof (cases "i < length ws")
    case True
    then have unf: "answer_events ws i =
        Event ''answer'' (Text (str_join '' '' (slice ws i (i + 5)))) None
          # answer_events ws (i + 5)"
      by (subst answer_events.simps) simp
    show ?thesis
    proof (cases k)
      case 0
      with unf show ?thesis by simp
    next
      case (Suc j)
      with "1.prems" unf have "j < length (answer_events ws (i + 5))" by simp
      with "1.IH" True have "answer_events ws (i + 5) ! j =
          Event ''answer'' (Text (str_join '' '' (slice ws (i + 5 + 5 * j) (i + 5 + 5 * j + 5)))) None"
        by simp
      with unf Suc show ?thesis by (simp add: add.assoc)
    qed
  next
    case False
    then have "answer_events ws i = []" by (subst answer_events.simps) simp
    with "1.prems" show ?thesis by simp
  qed
qed

lemma answer_chunks_Cons:
  "answer_chunks (Event ''answer'' (Text t) m # evs) = t # answer_chunks evs"
  by (simp add: answer_chunks_def)

lemma str_join_take_drop:
  assumes "0 < n" "n < length xs"
  shows "str_join sep (take n xs) @ sep @ str_join sep (drop n xs) = str_join sep xs"
proof -
  from assms have "take n xs \<noteq> []" "drop n xs \<noteq> []" by auto
  then have "str_join sep (take n xs @ drop n xs) =
      str_join sep (take n xs) @ sep @ str_join sep (drop n xs)"
    by (rule str_join_append)
  then show ?thesis by simp
qed

lemma join_answer_events:
  "str_join '' '' (answer_chunks (answer_events ws i)) = str_join '' '' (drop i ws)"
proof (induction ws i rule: answer_events.induct)
  case (1 ws i)
  show ?case
  proof (cases "i < length ws")
    case inside: True
    then have unf: "answer_events ws i =
        Event ''answer'' (Text (str_join '' '' (take 5 (drop i ws)))) None
          # answer_events ws (i + 5)"
      by (subst answer_events.simps) (simp add: slice_def)
    have IH: "str_join '' '' (answer_chunks (answer_events ws (i + 5))) =
        str_join '' '' (drop 5 (drop i ws))"
      using "1.IH" [OF inside] by (simp add: add.commute)
    show ?thesis
    proof (cases "i + 5 < length ws")
      case True
      then have "answer_events ws (i + 5) =
          Event ''answer'' (Text (str_join '' '' (slice ws (i + 5) (i + 5 + 5)))) None
            # answer_events ws (i + 5 + 5)"
        by (subst answer_events.simps) simp
      then have ne: "answer_chunks (answer_events ws (i + 5)) \<noteq> []"
        by (simp add: answer_chunks_Cons)
      from True have len: "5 < length (drop i ws)" by simp
      have "str_join '' '' (answer_chunks (answer_events ws i)) =
          str_join '' '' (take 5 (drop i ws)) @ '' '' @
            str_join '' '' (answer_chunks (answer_events ws (i + 5)))"
        using ne by (simp add: unf answer_chunks_Cons str_join_Cons)
      also have "\<dots> = str_join '' '' (take 5 (drop i ws)) @ '' '' @
            str_join '' '' (drop 5 (drop i ws))"
        by (simp only: IH)
      also have "\<dots> = str_join '' '' (drop i ws)"
        by (rule str_join_take_drop) (use len in simp_all)
      finally show ?thesis .
    next
      case False
      then have e: "answer_events ws (i + 5) = []" by (subst answer_events.simps) simp
      from False have "take 5 (drop i ws) = drop i ws" by simp
      then show ?thesis by (simp add: unf e answer_chunks_Cons answer_chunks_def)
    qed
  next
    case False
    then have "answer_events ws i = []" by (subst answer_events.simps) simp
    with False show ?thesis by (simp add: answer_chunks_def)
  qed
qed


section \<open>The batch run\<close>

lemma router_node_route:
  "route (router_node e s) = ''qa'' \<or> route (router_node e s) = ''summarize''
   \<or> route (router_node e s) = ''action''"
  by (simp add: router_node_def Let_def)

lemma run_graph_value_fallback:
  "\<not> langgraph_installed e \<Longrightarrow>
   run_graph_value e c q =
     Inr (Instance (let s1 = router_node e (initial_state c q)
          in if route s1 \<in> {''qa'', ''summarize''}
             then synthesize_node e (retrieve_node s1) else action_node e s1))"
  by (simp add: run_graph_value_def build_graph_def Let_def)

lemma run_graph_state_fallback:
  "\<not> langgraph_installed e \<Longrightarrow>
   run_graph_state e c q =
     Inr (let s1 = router_node e (initial_state c q)
          in if route s1 \<in> {''qa'', ''summarize''}
             then synthesize_node e (retrieve_node s1) else action_node e s1)"
  by (simp add: run_graph_state_def run_graph_value_fallback)

lemma build_graph_eq:
  "build_graph e = (if langgraph_installed e then Some (the_graph e) else None)"
  by (simp add: build_graph_def the_graph_def Let_def new_StateGraph_def add_node_def
      set_entry_point_def add_conditional_edges_def add_edge_def)

lemma run_from_synthesize:
  "run_from (Suc n) (the_graph e) (Node ''synthesize'') s = Inr (synthesize_node e s)"
  by (simp add: the_graph_def)

lemma run_from_action:
  "run_from (Suc n) (the_graph e) (Node ''action'') s = Inr (action_node e s)"
  by (simp add: the_graph_def)

lemma run_from_retrieve:
  "run_from (Suc (Suc n)) (the_graph e) (Node ''retrieve'') s =
     Inr (synthesize_node e (retrieve_node s))"
proof -
  have "run_from (Suc (Suc n)) (the_graph e) (Node ''retrieve'') s =
      run_from (Suc n) (the_graph e) (Node ''synthesize'') (retrieve_node s)"
    by (simp add: the_graph_def)
  then show ?thesis by (simp only: run_from_synthesize)
qed


lemma path_map_route_condition:
  "map_of [(Node ''retrieve'', Node ''retrieve''), (Node ''synthesize'', Node ''synthesize''),
           (Node ''action'', Node ''action''), (END, END)] (route_condition s)
   = Some (route_condition s)"
  by (simp add: route_condition_def)

lemma run_from_router:
  "run_from (Suc n) (the_graph e) (Node ''router'') s =
     run_from n (the_graph e) (route_condition (router_node e s)) (router_node e s)"
proof -
  have n: "map_of (nodes (the_graph e)) ''router'' = Some (router_node e)"
    by (simp add: the_graph_def)
  have c: "map_of (conditional_edges (the_graph e)) ''router'' =
      Some (route_condition,
        [(Node ''retrieve'', Node ''retrieve''), (Node ''synthesize'', Node ''synthesize''),
         (Node ''action'', Node ''action''), (END, END)])"
    by (simp add: the_graph_def)
  show ?thesis
    by (simp only: run_from.simps n c option.case Let_def prod.case path_map_route_condition)
qed

lemma run_from_dispatch:
  assumes "route s1 = ''qa'' \<or> route s1 = ''summarize'' \<or> route s1 = ''action''"
  shows "run_from (Suc (Suc n)) (the_graph e) (route_condition s1) s1 =
     Inr (if route s1 = ''qa'' then synthesize_node e (retrieve_node s1)
          else if route s1 = ''summarize'' then synthesize_node e s1
          else action_node e s1)"
proof -
  consider "route s1 = ''qa''" | "route s1 = ''summarize''" | "route s1 = ''action''"
    using assms by blast
  then show ?thesis
  proof cases
    case 1
    then show ?thesis by (simp add: route_condition_def run_from_retrieve del: run_from.simps)
  next
    case 2
    then show ?thesis by (simp add: route_condition_def run_from_synthesize del: run_from.simps)
  next
    case 3
    then show ?thesis by (simp add: route_condition_def run_from_action del: run_from.simps)
  qed
qed

lemma ainvoke_the_graph:
  "ainvoke (the_graph e) s =
     Inr (let s1 = router_node e s
          in if route s1 = ''qa'' then synthesize_node e (retrieve_node s1)
             else if route s1 = ''summarize'' then synthesize_node e s1
             else action_node e s1)"
proof -
  have lim: "recursion_limit = Suc (Suc (Suc 22))"
    by (simp add: recursion_limit_def)
  have ep: "entry_point (the_graph e) = Some ''router''"
    by (simp add: the_graph_def)
  show ?thesis
    by (simp only: ainvoke_def ep option.case lim run_from_router Let_def
        run_from_dispatch [OF router_node_route])
qed

lemma run_graph_value_langgraph:
  "langgraph_installed e \<Longrightarrow>
   run_graph_value e c q =
     Inr (Dict (let s1 = router_node e (initial_state c q)
          in if route s1 = ''qa'' then synthesize_node e (retrieve_node s1)
             else if route s1 = ''summarize'' then synthesize_node e s1
             else action_node e s1))"
  by (simp only: run_graph_value_def build_graph_eq if_True option.case Let_def ainvoke_the_graph
      sum.case)

lemma run_graph_state_langgraph:
  "langgraph_installed e \<Longrightarrow>
   run_graph_state e c q =
     Inr (let s1 = router_node e (initial_state c q)
          in if route s1 = ''qa'' then synthesize_node e (retrieve_node s1)
             else if route s1 = ''summarize'' then synthesize_node e s1
             else action_node e s1)"
  by (simp add: run_graph_state_def run_graph_value_langgraph)

text \<open>
  Without \<open>langgraph\<close> the batch run returns the result of its final state; with it,
  the return statement raises on every route.
\<close>

lemma run_graph_fallback:
  "\<not> langgraph_installed e \<Longrightarrow>
   run_graph e c q =
     Inr (result_of (let s1 = router_node e (initial_state c q)
          in if route s1 \<in> {''qa'', ''summarize''}
             then synthesize_node e (retrieve_node s1) else action_node e s1))"
  by (simp add: run_graph_def run_graph_value_fallback)

lemma run_graph_langgraph:
  "langgraph_installed e \<Longrightarrow> run_graph e c q = Inl (AttributeError ''answer'')"
  by (simp add: run_graph_def run_graph_value_langgraph)


section \<open>Retrieval\<close>

text \<open>
  Claim C9. What \<open>retrieve_node\<close> stores does not depend on the state it is given, so
  neither on \<open>org_id\<close> nor on \<open>query\<close>: for any two states it stores the same
  \<open>retrieved_docs\<close> and the same \<open>sources\<close>, the two fixed documents \<open>doc1\<close> (score
  0.95) and \<open>doc2\<close> (score 0.87).
\<close>

theorem retrieve_node_ignores_state:
  "retrieved_docs (retrieve_node s1) = retrieved_docs (retrieve_node s2)
   \<and> sources (retrieve_node s1) = sources (retrieve_node s2)
   \<and> map (\<lambda>d. (doc_id d, doc_score d)) (retrieved_docs (retrieve_node s1)) =
       [(''doc1'', 95 / 100), (''doc2'', 87 / 100)]
   \<and> map (\<lambda>r. (ref_id r, ref_score r)) (sources (retrieve_node s1)) =
       [(''doc1'', 95 / 100), (''doc2'', 87 / 100)]"
  by (simp add: retrieve_node_def mock_docs_def source_of_def)

section \<open>The order of the stream\<close>

lemma answer_chunks_append: "answer_chunks (xs @ ys) = answer_chunks xs @ answer_chunks ys"
  by (simp add: answer_chunks_def)

lemma answer_chunks_stream:
  "answer_chunks (run_graph_stream e c q) =
     answer_chunks (answer_events (str_split (answer (stream_final e c q))) 0)"
  by (simp add: stream_events_eq answer_chunks_append) (simp add: answer_chunks_def)

lemma ev_type_answer_events:
  assumes "ev \<in> set (answer_events ws i)"
  shows "ev_type ev = ''answer''"
proof -
  from assms have "ev_type ev \<in> set (map ev_type (answer_events ws i))" by simp
  then have "ev_type ev \<in> set (replicate (length (answer_events ws i)) ''answer'')"
    by (simp only: answer_events_types)
  then show ?thesis by simp
qed

lemma events_of_type_answer_events:
  "ty \<noteq> ''answer'' \<Longrightarrow> events_of_type ty (answer_events ws i) = []"
proof -
  assume "ty \<noteq> ''answer''"
  then have "\<forall>ev\<in>set (answer_events ws i). ev_type ev \<noteq> ty"
    using ev_type_answer_events [of _ ws i] by auto
  then show ?thesis by (simp add: events_of_type_def)
qed

lemma events_of_type_answer:
  "events_of_type ''answer'' (answer_events ws i) = answer_events ws i"
proof -
  have "\<forall>ev\<in>set (answer_events ws i). ev_type ev = ''answer''"
    using ev_type_answer_events [of _ ws i] by auto
  then show ?thesis by (simp add: events_of_type_def)
qed

text \<open>
  Claim C3. For every input the stream is, in this order: a \<open>routing\<close> event, a \<open>route\<close>
  event, then a \<open>retrieving\<close> and a \<open>sources\<close> event exactly when the route is \<open>qa\<close> or
  \<open>summarize\<close>, then a \<open>thinking\<close> event, then the \<open>answer\<close> events (none or more),
  then a \<open>complete\<close> event. The \<open>complete\<close> event occurs once and is the last event.
\<close>

theorem stream_order:
  "map ev_type (run_graph_stream e c q) =
     [''routing'', ''route'']
     @ (if route (router_node e (initial_state c q)) = ''qa''
           \<or> route (router_node e (initial_state c q)) = ''summarize''
        then [''retrieving'', ''sources''] else [])
     @ [''thinking'']
     @ replicate (length (events_of_type ''answer'' (run_graph_stream e c q))) ''answer''
     @ [''complete'']
   \<and> events_of_type ''complete'' (run_graph_stream e c q) =
       [Event ''complete'' (Text (answer (stream_final e c q)))
          (Some (metadata (stream_final e c q)))]
   \<and> last (run_graph_stream e c q) =
       Event ''complete'' (Text (answer (stream_final e c q)))
          (Some (metadata (stream_final e c q)))"
proof -
  let ?ws = "str_split (answer (stream_final e c q))"
  have a: "events_of_type ''answer'' (run_graph_stream e c q) = answer_events ?ws 0"
    by (simp add: stream_events_eq) (simp add: events_of_type_def events_of_type_answer [unfolded events_of_type_def])
  have c: "events_of_type ''complete'' (answer_events ?ws 0) = []"
    by (rule events_of_type_answer_events) simp
  have 1: "map ev_type (run_graph_stream e c q) =
     [''routing'', ''route'']
     @ (if route (router_node e (initial_state c q)) = ''qa''
           \<or> route (router_node e (initial_state c q)) = ''summarize''
        then [''retrieving'', ''sources''] else [])
     @ [''thinking'']
     @ replicate (length (events_of_type ''answer'' (run_graph_stream e c q))) ''answer''
     @ [''complete'']"
    unfolding a by (simp add: stream_events_eq answer_events_types)
  have 2: "events_of_type ''complete'' (run_graph_stream e c q) =
       [Event ''complete'' (Text (answer (stream_final e c q)))
          (Some (metadata (stream_final e c q)))]"
    by (simp add: stream_events_eq) (simp add: events_of_type_def c [unfolded events_of_type_def])
  have 3: "last (run_graph_stream e c q) =
       Event ''complete'' (Text (answer (stream_final e c q)))
          (Some (metadata (stream_final e c q)))"
    by (simp add: stream_events_eq)
  from 1 2 3 show ?thesis by blast
qed

section \<open>Chunks of the answer\<close>

lemma str_split_words:
  "\<forall>w\<in>set (str_split s). w \<noteq> [] \<and> (\<forall>ch\<in>set w. \<not> isspace ch)"
  unfolding str_split_def by (rule split_from_words) simp

lemma set_slice: "set (slice xs i j) \<subseteq> set xs"
  unfolding slice_def by (meson set_take_subset set_drop_subset subset_trans)

lemma str_split_join_slice:
  "str_split (str_join '' '' (slice (str_split s) i j)) = slice (str_split s) i j"
proof -
  have "\<forall>w\<in>set (slice (str_split s) i j). w \<noteq> [] \<and> (\<forall>ch\<in>set w. \<not> isspace ch)"
    using str_split_words [of s] set_slice [of "str_split s" i j] by blast
  then show ?thesis unfolding str_split_def [of "str_join _ _"] by (rule split_from_join)
qed

lemma upt_0_Suc: "[0..<Suc n] = 0 # map Suc [0..<n]"
  by (simp add: map_Suc_upt upt_conv_Cons del: upt_Suc)

lemma answer_chunks_answer_events:
  "answer_chunks (answer_events ws i) =
     map (\<lambda>k. str_join '' '' (slice ws (i + 5 * k) (i + 5 * k + 5)))
       [0 ..< length (answer_events ws i)]"
proof (induction ws i rule: answer_events.induct)
  case (1 ws i)
  show ?case
  proof (cases "i < length ws")
    case True
    then have unf: "answer_events ws i =
        Event ''answer'' (Text (str_join '' '' (slice ws i (i + 5)))) None
          # answer_events ws (i + 5)"
      by (subst answer_events.simps) simp
    have "answer_chunks (answer_events ws i) =
        str_join '' '' (slice ws i (i + 5)) # answer_chunks (answer_events ws (i + 5))"
      by (simp add: unf answer_chunks_Cons)
    also have "answer_chunks (answer_events ws (i + 5)) =
        map (\<lambda>k. str_join '' '' (slice ws (i + 5 + 5 * k) (i + 5 + 5 * k + 5)))
          [0 ..< length (answer_events ws (i + 5))]"
      by (rule "1.IH" [OF True])
    finally show ?thesis
      by (simp only: unf length_Cons upt_0_Suc list.map map_map comp_def)
         (simp add: add.assoc)
  next
    case False
    then have "answer_events ws i = []" by (subst answer_events.simps) simp
    then show ?thesis by (simp add: answer_chunks_def)
  qed
qed

lemma length_slice: "length (slice xs i (i + 5)) = min 5 (length xs - i)"
  by (simp add: slice_def min.commute)

lemma completion_stub:
  "completion (stub_env lg l t) sys usr (max_tokens_only n) = (if n = 50 then l else t)"
  by (simp add: completion_def provider_def kwargs_get_def stub_env_def openai_completion_def
      openai_request_def max_tokens_only_def)

lemma route_stub_qa: "route (router_node (stub_env lg ''qa'' t) s) = ''qa''"
  by (simp add: router_node_def Let_def completion_stub str_lower_def str_strip_def
      isspace_def lower_char_def)

lemma route_stub_summarize: "route (router_node (stub_env lg ''summarize'' t) s) = ''summarize''"
  by (simp add: router_node_def Let_def completion_stub str_lower_def str_strip_def
      isspace_def lower_char_def)

lemma route_stub_action: "route (router_node (stub_env lg ''action'' t) s) = ''action''"
  by (simp add: router_node_def Let_def completion_stub str_lower_def str_strip_def
      isspace_def lower_char_def)

lemma answer_synthesize_stub: "answer (synthesize_node (stub_env lg l t) s) = t"
  by (simp add: synthesize_node_def Let_def completion_stub)

lemma answer_action_stub: "answer (action_node (stub_env lg l t) s) = t"
  by (simp add: action_node_def Let_def completion_stub)

lemma answer_stream_final_qa: "answer (stream_final (stub_env lg ''qa'' t) c q) = t"
  by (simp add: stream_final_eq Let_def route_stub_qa answer_synthesize_stub)

lemma answer_stream_final_action: "answer (stream_final (stub_env lg ''action'' t) c q) = t"
  by (simp add: stream_final_eq Let_def route_stub_action answer_action_stub)

lemma str_split_example:
  "str_split ''line one\<newline>line two'' = [''line'', ''one'', ''line'', ''two'']"
  by (simp add: str_split_def isspace_def)

lemma str_split_twelve:
  "str_split ''one two three four five six seven eight nine ten eleven twelve'' =
     [''one'', ''two'', ''three'', ''four'', ''five'', ''six'', ''seven'', ''eight'', ''nine'',
      ''ten'', ''eleven'', ''twelve'']"
  by (simp add: str_split_def isspace_def)

text \<open>
  Claim C4, as amended. The \<open>answer\<close> events carry the words of the final answer
  (\<open>answer.split()\<close>) in groups of five, left to right, every group of exactly five words
  but possibly the last, which is not empty. Joining their contents with single spaces
  gives the answer with every run of whitespace replaced by one space and the whitespace
  at its ends removed (\<open>" ".join(answer.split())\<close>); this is the answer string of the
  \<open>complete\<close> event itself when the answer consists of words separated by single spaces.
  An answer of 12 words gives three \<open>answer\<close> events, of 5, 5 and 2 words.
\<close>

theorem answer_chunking:
  fixes e c q
  defines "evs \<equiv> run_graph_stream e c q"
    and "a \<equiv> answer (stream_final e c q)"
  shows
    "answer_chunks evs =
       map (\<lambda>k. str_join '' '' (slice (str_split a) (5 * k) (5 * k + 5)))
         [0 ..< (length (str_split a) + 4) div 5]
     \<and> (\<forall>k. k < (length (str_split a) + 4) div 5 \<longrightarrow>
           str_split (answer_chunks evs ! k) = slice (str_split a) (5 * k) (5 * k + 5)
           \<and> length (str_split (answer_chunks evs ! k)) = min 5 (length (str_split a) - 5 * k)
           \<and> 0 < length (str_split (answer_chunks evs ! k)))
     \<and> str_join '' '' (answer_chunks evs) = str_join '' '' (str_split a)
     \<and> ev_content (last evs) = Text a
     \<and> (\<forall>ws. (\<forall>w\<in>set ws. w \<noteq> [] \<and> (\<forall>ch\<in>set w. \<not> isspace ch)) \<and> a = str_join '' '' ws \<longrightarrow>
           str_join '' '' (answer_chunks evs) = a)
     \<and> (str_join '' '' (answer_chunks evs) = a \<longrightarrow>
           (\<exists>ws. (\<forall>w\<in>set ws. w \<noteq> [] \<and> (\<forall>ch\<in>set w. \<not> isspace ch)) \<and> a = str_join '' '' ws))
     \<and> (length (str_split a) = 12 \<longrightarrow>
           map (\<lambda>t. length (str_split t)) (answer_chunks evs) = [5, 5, 2])"
proof -
  let ?ws = "str_split a"
  let ?n = "(length ?ws + 4) div 5"
  have len: "length (answer_events ?ws 0) = ?n"
    by (simp add: answer_events_length)
  have chunks: "answer_chunks evs =
      map (\<lambda>k. str_join '' '' (slice ?ws (5 * k) (5 * k + 5))) [0 ..< ?n]"
    unfolding evs_def a_def answer_chunks_stream
    using answer_chunks_answer_events [of "str_split (answer (stream_final e c q))" 0]
    by (simp add: answer_events_length)
  have nth: "str_split (answer_chunks evs ! k) = slice ?ws (5 * k) (5 * k + 5)
      \<and> length (str_split (answer_chunks evs ! k)) = min 5 (length ?ws - 5 * k)
      \<and> 0 < length (str_split (answer_chunks evs ! k))" if "k < ?n" for k
  proof -
    from that have "answer_chunks evs ! k = str_join '' '' (slice ?ws (5 * k) (5 * k + 5))"
      by (simp add: chunks)
    then have eq: "str_split (answer_chunks evs ! k) = slice ?ws (5 * k) (5 * k + 5)"
      by (simp only: str_split_join_slice)
    from that have "5 * k < length ?ws" by linarith
    then show ?thesis by (simp add: eq length_slice)
  qed
  have join: "str_join '' '' (answer_chunks evs) = str_join '' '' ?ws"
    unfolding evs_def a_def answer_chunks_stream by (simp add: join_answer_events)
  have last: "ev_content (last evs) = Text a"
    unfolding evs_def a_def by (simp add: stream_events_eq)
  have round: "str_join '' '' (answer_chunks evs) = a"
    if "\<forall>w\<in>set ws. w \<noteq> [] \<and> (\<forall>ch\<in>set w. \<not> isspace ch)" "a = str_join '' '' ws" for ws
  proof -
    from that have "str_split a = ws" by (simp add: str_split_def split_from_join)
    with join that show ?thesis by simp
  qed
  have twelve: "map (\<lambda>t. length (str_split t)) (answer_chunks evs) = [5, 5, 2]"
    if l: "length ?ws = 12"
  proof -
    have "[0 ..< (12 + 4) div 5] = [0, 1, Suc (Suc 0)]"
      by (simp add: upt_conv_Cons)
    then have "answer_chunks evs =
        [str_join '' '' (slice ?ws 0 5), str_join '' '' (slice ?ws 5 10),
         str_join '' '' (slice ?ws 10 15)]"
      by (simp add: chunks l)
    then show ?thesis
      by (simp add: str_split_join_slice) (simp add: slice_def l)
  qed
  have only: "\<exists>ws. (\<forall>w\<in>set ws. w \<noteq> [] \<and> (\<forall>ch\<in>set w. \<not> isspace ch)) \<and> a = str_join '' '' ws"
    if "str_join '' '' (answer_chunks evs) = a"
  proof -
    from that join have "a = str_join '' '' ?ws" by simp
    with str_split_words [of a] show ?thesis by blast
  qed
  from chunks nth join last round only twelve show ?thesis by blast
qed

text \<open>A run whose answer has twelve words separated by single spaces.\<close>

theorem answer_chunking_witness:
  "length (str_split ''one two three four five six seven eight nine ten eleven twelve'') = 12
   \<and> answer_chunks (run_graph_stream
        (stub_env False ''qa'' ''one two three four five six seven eight nine ten eleven twelve'')
        demo_ctx ''What is AutoBrain?'') =
       [''one two three four five'', ''six seven eight nine ten'', ''eleven twelve'']
   \<and> map (\<lambda>t. length (str_split t)) (answer_chunks (run_graph_stream
        (stub_env False ''qa'' ''one two three four five six seven eight nine ten eleven twelve'')
        demo_ctx ''What is AutoBrain?'')) = [5, 5, 2]
   \<and> str_join '' '' (answer_chunks (run_graph_stream
        (stub_env False ''qa'' ''one two three four five six seven eight nine ten eleven twelve'')
        demo_ctx ''What is AutoBrain?'')) =
       ''one two three four five six seven eight nine ten eleven twelve''"
proof -
  let ?t = "''one two three four five six seven eight nine ten eleven twelve''"
  let ?evs = "run_graph_stream (stub_env False ''qa'' ?t) demo_ctx ''What is AutoBrain?''"
  note fact = answer_chunking [of "stub_env False ''qa'' ?t" demo_ctx "''What is AutoBrain?''",
      unfolded answer_stream_final_qa str_split_twelve]
  have len: "length (str_split ?t) = 12"
    by (simp add: str_split_twelve)
  have chunks: "answer_chunks ?evs =
      [''one two three four five'', ''six seven eight nine ten'', ''eleven twelve'']"
    using fact [THEN conjunct1] by (simp add: slice_def upt_conv_Cons)
  have counts: "map (\<lambda>t. length (str_split t)) (answer_chunks ?evs) = [5, 5, 2]"
    using fact len [unfolded str_split_twelve] by blast
  have join: "str_join '' '' (answer_chunks ?evs) = ?t"
    using fact [THEN conjunct2, THEN conjunct2, THEN conjunct1] by simp
  from len chunks counts join show ?thesis by simp
qed

text \<open>
  The claim C4 as first stated (joining the chunks reproduces the answer of the
  \<open>complete\<close> event for any non-empty answer) fails for an answer of two lines.
\<close>

theorem answer_roundtrip_counterexample:
  "text_of (ev_content (last (run_graph_stream
       (stub_env False ''qa'' ''line one\<newline>line two'') demo_ctx ''What is AutoBrain?''))) =
     ''line one\<newline>line two''
   \<and> str_join '' '' (answer_chunks (run_graph_stream
       (stub_env False ''qa'' ''line one\<newline>line two'') demo_ctx ''What is AutoBrain?'')) =
     ''line one line two''
   \<and> str_join '' '' (answer_chunks (run_graph_stream
       (stub_env False ''qa'' ''line one\<newline>line two'') demo_ctx ''What is AutoBrain?'')) \<noteq>
     text_of (ev_content (last (run_graph_stream
       (stub_env False ''qa'' ''line one\<newline>line two'') demo_ctx ''What is AutoBrain?'')))"
proof -
  let ?evs = "run_graph_stream (stub_env False ''qa'' ''line one\<newline>line two'') demo_ctx
      ''What is AutoBrain?''"
  have 1: "text_of (ev_content (last ?evs)) = ''line one\<newline>line two''"
    by (simp add: stream_events_eq answer_stream_final_qa)
  have "str_join '' '' (answer_chunks ?evs) =
      str_join '' '' (drop 0 (str_split ''line one\<newline>line two''))"
    by (simp only: answer_chunks_stream answer_stream_final_qa join_answer_events)
  then have 2: "str_join '' '' (answer_chunks ?evs) = ''line one line two''"
    by (simp add: str_split_example)
  from 1 2 show ?thesis by simp
qed

text \<open>
  Claim C10. When the terminal node leaves an answer that is empty or consists of
  whitespace only, the stream has no \<open>answer\<close> event and exactly one \<open>complete\<close> event,
  its last, whose content is that answer.
\<close>

theorem blank_answer_stream:
  assumes "\<forall>ch\<in>set (answer (stream_final e c q)). isspace ch"
  shows "events_of_type ''answer'' (run_graph_stream e c q) = []
    \<and> events_of_type ''complete'' (run_graph_stream e c q) =
        [Event ''complete'' (Text (answer (stream_final e c q)))
           (Some (metadata (stream_final e c q)))]
    \<and> last (run_graph_stream e c q) =
        Event ''complete'' (Text (answer (stream_final e c q)))
           (Some (metadata (stream_final e c q)))"
proof -
  from assms have "str_split (answer (stream_final e c q)) = []"
    by (simp add: str_split_def split_from_blank)
  then have "answer_events (str_split (answer (stream_final e c q))) 0 = []"
    by (subst answer_events.simps) simp
  then show ?thesis
    by (simp add: stream_events_eq) (simp add: events_of_type_def)
qed

lemma metadata_stream_final_action:
  "metadata (stream_final (stub_env lg ''action'' t) c q) =
     [''route'' \<mapsto> ''action'', ''action_taken'' \<mapsto> ''simulated'']"
  by (simp add: stream_final_eq Let_def route_stub_action)
     (simp add: action_node_def router_node_def Let_def completion_stub initial_state_def
       GraphState_init_def str_lower_def str_strip_def isspace_def lower_char_def)

theorem blank_answer_stream_witness:
  "list_all isspace '' \<newline> ''
   \<and> events_of_type ''answer''
        (run_graph_stream (stub_env False ''action'' '' \<newline> '') demo_ctx ''send an email'') = []
   \<and> events_of_type ''complete''
        (run_graph_stream (stub_env False ''action'' '' \<newline> '') demo_ctx ''send an email'') =
       [Event ''complete'' (Text '' \<newline> '')
          (Some [''route'' \<mapsto> ''action'', ''action_taken'' \<mapsto> ''simulated''])]"
  using blank_answer_stream [of "stub_env False ''action'' '' \<newline> ''" demo_ctx "''send an email''"]
  by (simp add: answer_stream_final_action metadata_stream_final_action isspace_def)

section \<open>Retrieved documents and sources\<close>

lemma docs_router_node:
  "retrieved_docs (router_node e s) = retrieved_docs s \<and> sources (router_node e s) = sources s"
  by (simp add: router_node_def Let_def)

lemma docs_synthesize_node:
  "retrieved_docs (synthesize_node e s) = retrieved_docs s
   \<and> sources (synthesize_node e s) = sources s"
  by (simp add: synthesize_node_def Let_def)

lemma docs_action_node:
  "retrieved_docs (action_node e s) = retrieved_docs s \<and> sources (action_node e s) = sources s"
  by (simp add: action_node_def Let_def)

lemma docs_initial_state:
  "retrieved_docs (initial_state c q) = [] \<and> sources (initial_state c q) = []"
  by (simp add: initial_state_def GraphState_init_def)

lemma reachable_projection:
  "reachable e c q s \<Longrightarrow> sources s = map source_of (retrieved_docs s)"
  by (induction rule: reachable.induct)
     (simp_all add: docs_initial_state docs_router_node docs_synthesize_node docs_action_node
        retrieve_node_def)

text \<open>
  Claim C6. In every state of a run, after any node, \<open>retrieved_docs\<close> and \<open>sources\<close>
  are both empty or both set: they have the same length, and each \<open>sources[i]\<close> carries
  the \<open>id\<close>, \<open>source\<close> and \<open>score\<close> of \<open>retrieved_docs[i]\<close>.
\<close>

theorem docs_and_sources_together:
  assumes "reachable e c q s"
  shows "((retrieved_docs s = [] \<and> sources s = [])
          \<or> (retrieved_docs s \<noteq> [] \<and> sources s \<noteq> []))
    \<and> length (sources s) = length (retrieved_docs s)
    \<and> (\<forall>i. i < length (sources s) \<longrightarrow>
          ref_id (sources s ! i) = doc_id (retrieved_docs s ! i)
          \<and> ref_source (sources s ! i) = doc_source (retrieved_docs s ! i)
          \<and> ref_score (sources s ! i) = doc_score (retrieved_docs s ! i))"
proof -
  have p: "sources s = map source_of (retrieved_docs s)"
    using assms by (rule reachable_projection)
  then have "length (sources s) = length (retrieved_docs s)" by simp
  moreover from p have "(retrieved_docs s = [] \<and> sources s = [])
      \<or> (retrieved_docs s \<noteq> [] \<and> sources s \<noteq> [])" by simp
  moreover have "ref_id (sources s ! i) = doc_id (retrieved_docs s ! i)
          \<and> ref_source (sources s ! i) = doc_source (retrieved_docs s ! i)
          \<and> ref_score (sources s ! i) = doc_score (retrieved_docs s ! i)"
    if "i < length (sources s)" for i
    using that by (simp add: p source_of_def)
  ultimately show ?thesis by blast
qed

text \<open>The final states of both entry points are states of the run.\<close>

lemma reachable_stream_final: "reachable e c q (stream_final e c q)"
  by (simp add: stream_final_eq Let_def reachable.intros)

lemma reachable_run_graph_state:
  "run_graph_state e c q = Inr s \<Longrightarrow> reachable e c q s"
  by (cases "langgraph_installed e")
     (auto simp add: run_graph_state_langgraph run_graph_state_fallback Let_def reachable.intros
        split: if_splits)

theorem docs_and_sources_together_witness:
  "reachable (stub_env True ''qa'' ''ok'') demo_ctx ''What is AutoBrain?''
     (retrieve_node (router_node (stub_env True ''qa'' ''ok'')
        (initial_state demo_ctx ''What is AutoBrain?'')))
   \<and> length (sources (retrieve_node (router_node (stub_env True ''qa'' ''ok'')
        (initial_state demo_ctx ''What is AutoBrain?'')))) = 2
   \<and> ref_id (sources (retrieve_node (router_node (stub_env True ''qa'' ''ok'')
        (initial_state demo_ctx ''What is AutoBrain?''))) ! 1) =
      doc_id (retrieved_docs (retrieve_node (router_node (stub_env True ''qa'' ''ok'')
        (initial_state demo_ctx ''What is AutoBrain?''))) ! 1)"
proof -
  let ?s = "retrieve_node (router_node (stub_env True ''qa'' ''ok'')
        (initial_state demo_ctx ''What is AutoBrain?''))"
  have r: "reachable (stub_env True ''qa'' ''ok'') demo_ctx ''What is AutoBrain?'' ?s"
    by (intro reachable.intros)
  have l: "length (sources ?s) = 2"
    by (simp add: retrieve_node_def mock_docs_def)
  from docs_and_sources_together [OF r] l
  have "ref_id (sources ?s ! 1) = doc_id (retrieved_docs ?s ! 1)" by simp
  with r l show ?thesis by simp
qed

section \<open>The Router\<close>

lemma of_char_less_256: "(of_char c :: nat) < 256"
proof -
  have "(of_char c :: nat) mod 256 = of_char c" by (rule of_char_mod_256)
  then show ?thesis by (metis mod_less_divisor zero_less_numeral)
qed

lemma isspace_iff:
  "isspace ch \<longleftrightarrow> (of_char ch :: nat) \<in> set [9, 10, 11, 12, 13, 28, 29, 30, 31, 32, 133, 160]"
proof -
  have "(9 \<le> n \<and> n \<le> 13) \<or> (28 \<le> n \<and> n \<le> 32) \<or> n = 133 \<or> n = 160
      \<longleftrightarrow> n \<in> set [9, 10, 11, 12, 13, 28, 29, 30, 31, 32, 133, 160]" for n :: nat
    by (simp only: list.set insert_iff empty_iff) arith
  then show ?thesis by (simp only: isspace_def Let_def)
qed

lemma only_whitespace_iff: "only_whitespace xs \<longleftrightarrow> (\<forall>ch\<in>set xs. isspace ch)"
  by (simp only: only_whitespace_def list_all_iff isspace_iff)

lemma lower_char_letter:
  assumes "lower_letter d"
  shows "lower_char c = d \<longleftrightarrow> c = d \<or> capital_of c d"
proof
  assume l: "lower_char c = d"
  let ?n = "of_char c :: nat"
  show "c = d \<or> capital_of c d"
  proof (cases "(65 \<le> ?n \<and> ?n \<le> 90) \<or> (192 \<le> ?n \<and> ?n \<le> 222 \<and> ?n \<noteq> 215)")
    case True
    with l have "char_of (?n + 32) = d" by (simp add: lower_char_def Let_def)
    then have "(of_char d :: nat) = (?n + 32) mod 256" by (metis of_char_of)
    moreover have "?n + 32 < 256" using True by auto
    ultimately have d: "(of_char d :: nat) = ?n + 32" by simp
    with assms have "?n \<le> 90" by (simp add: lower_letter_def)
    with True d show ?thesis by (simp add: capital_of_def)
  next
    case False
    with l show ?thesis by (simp add: lower_char_def Let_def)
  qed
next
  assume "c = d \<or> capital_of c d"
  then show "lower_char c = d"
  proof
    assume "c = d"
    with assms show ?thesis by (simp add: lower_char_def Let_def lower_letter_def)
  next
    assume c: "capital_of c d"
    then have "lower_char c = char_of (of_char c + 32 :: nat)"
      by (simp add: lower_char_def Let_def capital_of_def)
    also have "\<dots> = char_of (of_char d :: nat)" using c by (simp add: capital_of_def)
    also have "\<dots> = d" by (rule char_of_char)
    finally show ?thesis .
  qed
qed

lemma str_lower_letters:
  assumes "\<forall>d\<in>set l. lower_letter d"
  shows "str_lower core = l \<longleftrightarrow> same_ignoring_case core l"
proof -
  have "str_lower core = l \<longleftrightarrow> list_all2 (\<lambda>c d. lower_char c = d) core l"
    by (simp add: str_lower_def list_all2_conv_all_nth list_eq_iff_nth_eq) 
  also have "\<dots> \<longleftrightarrow> list_all2 (\<lambda>c d. c = d \<or> capital_of c d) core l"
  proof
    assume "list_all2 (\<lambda>c d. lower_char c = d) core l"
    then show "list_all2 (\<lambda>c d. c = d \<or> capital_of c d) core l"
      by (rule list.rel_mono_strong) (use assms lower_char_letter in blast)
  next
    assume "list_all2 (\<lambda>c d. c = d \<or> capital_of c d) core l"
    then show "list_all2 (\<lambda>c d. lower_char c = d) core l"
      by (rule list.rel_mono_strong) (use assms lower_char_letter in blast)
  qed
  finally show ?thesis by (simp only: same_ignoring_case_def)
qed

lemma label_letters:
  assumes "l = ''qa'' \<or> l = ''summarize'' \<or> l = ''action''"
  shows "\<forall>d\<in>set l. lower_letter d"
  using assms by (auto simp add: lower_letter_def)

lemma letter_not_space:
  assumes "lower_letter (lower_char c)"
  shows "\<not> isspace c"
proof
  assume sp: "isspace c"
  let ?n = "of_char c :: nat"
  from sp have "\<not> ((65 \<le> ?n \<and> ?n \<le> 90) \<or> (192 \<le> ?n \<and> ?n \<le> 222 \<and> ?n \<noteq> 215))"
    by (auto simp add: isspace_def Let_def)
  then have "lower_char c = c" unfolding lower_char_def Let_def by (rule if_not_P)
  with assms have "97 \<le> ?n \<and> ?n \<le> 122" by (simp add: lower_letter_def)
  with sp show False by (auto simp add: isspace_def Let_def)
qed


lemma dropWhile_no_lead: "xs \<noteq> [] \<Longrightarrow> \<not> P (hd xs) \<Longrightarrow> dropWhile P (xs @ ys) = xs @ ys"
  by (cases xs) simp_all

lemma str_strip_padded:
  assumes pre: "\<forall>ch\<in>set pre. isspace ch" and post: "\<forall>ch\<in>set post. isspace ch"
    and core: "core \<noteq> []" "\<not> isspace (hd core)" "\<not> isspace (last core)"
  shows "str_strip (pre @ core @ post) = core"
proof -
  have "dropWhile isspace (pre @ core @ post) = dropWhile isspace (core @ post)"
    using pre by (simp add: dropWhile_append2)
  also have "\<dots> = core @ post"
    using core by (simp add: dropWhile_no_lead)
  finally have 1: "dropWhile isspace (pre @ core @ post) = core @ post" .
  have "dropWhile isspace (rev (core @ post)) = dropWhile isspace (rev post @ rev core)"
    by simp
  also have "\<dots> = dropWhile isspace (rev core)"
  proof (rule dropWhile_append2)
    fix x assume "x \<in> set (rev post)"
    with post show "isspace x" by simp
  qed
  also have "\<dots> = rev core"
    using core dropWhile_no_lead [of "rev core" isspace "[]"] by (simp add: hd_rev)
  finally have 2: "dropWhile isspace (rev (core @ post)) = rev core" .
  show ?thesis by (simp only: str_strip_def 1 2 rev_rev_ident)
qed

lemma str_strip_decompose:
  "\<exists>pre post. t = pre @ str_strip t @ post
     \<and> (\<forall>ch\<in>set pre. isspace ch) \<and> (\<forall>ch\<in>set post. isspace ch)"
proof -
  let ?u = "dropWhile isspace t"
  let ?pre = "takeWhile isspace t"
  let ?post = "rev (takeWhile isspace (rev ?u))"
  have "str_strip t @ ?post =
      rev (takeWhile isspace (rev ?u) @ dropWhile isspace (rev ?u))"
    by (simp only: str_strip_def rev_append)
  also have "\<dots> = rev (rev ?u)" by (simp only: takeWhile_dropWhile_id)
  also have "\<dots> = ?u" by (simp only: rev_rev_ident)
  finally have u: "?u = str_strip t @ ?post" by (rule sym)
  have "t = ?pre @ ?u" by simp
  with u have "t = ?pre @ str_strip t @ ?post" by simp
  moreover have "\<forall>ch\<in>set ?pre. isspace ch" by (auto dest: set_takeWhileD)
  moreover have "\<forall>ch\<in>set ?post. isspace ch" by (auto dest: set_takeWhileD)
  ultimately show ?thesis by blast
qed

lemma label_shaped_core:
  assumes l: "l = ''qa'' \<or> l = ''summarize'' \<or> l = ''action''"
    and s: "same_ignoring_case core l"
  shows "core \<noteq> [] \<and> \<not> isspace (hd core) \<and> \<not> isspace (last core)"
proof -
  from s have low: "str_lower core = l"
    by (simp add: str_lower_letters [OF label_letters [OF l]])
  with l have ne: "core \<noteq> []" by (auto simp add: str_lower_def)
  have "\<not> isspace c" if "c \<in> set core" for c
  proof -
    from that low have "lower_char c \<in> set l" by (auto simp add: str_lower_def)
    with label_letters [OF l] have "lower_letter (lower_char c)" by blast
    then show ?thesis by (rule letter_not_space)
  qed
  with ne show ?thesis by simp
qed

lemma normalised_label:
  assumes l: "l = ''qa'' \<or> l = ''summarize'' \<or> l = ''action''"
  shows "str_lower (str_strip t) = l \<longleftrightarrow>
     (\<exists>pre core post. t = pre @ core @ post \<and> only_whitespace pre \<and> only_whitespace post
        \<and> same_ignoring_case core l)"
proof
  assume n: "str_lower (str_strip t) = l"
  obtain pre post where "t = pre @ str_strip t @ post"
      "\<forall>ch\<in>set pre. isspace ch" "\<forall>ch\<in>set post. isspace ch"
    using str_strip_decompose [of t] by blast
  moreover from n have "same_ignoring_case (str_strip t) l"
    by (simp add: str_lower_letters [OF label_letters [OF l]])
  ultimately show "\<exists>pre core post. t = pre @ core @ post \<and> only_whitespace pre
      \<and> only_whitespace post \<and> same_ignoring_case core l"
    unfolding only_whitespace_iff by blast
next
  assume "\<exists>pre core post. t = pre @ core @ post \<and> only_whitespace pre \<and> only_whitespace post
        \<and> same_ignoring_case core l"
  then obtain pre core post where t: "t = pre @ core @ post"
    and w: "\<forall>ch\<in>set pre. isspace ch" "\<forall>ch\<in>set post. isspace ch"
    and s: "same_ignoring_case core l"
    unfolding only_whitespace_iff by blast
  from label_shaped_core [OF l s]
  have "str_strip t = core" unfolding t by (intro str_strip_padded w) simp_all
  with s show "str_lower (str_strip t) = l"
    by (simp add: str_lower_letters [OF label_letters [OF l]])
qed


text \<open>
  Claim C5. Whatever text the Completion capability returns to the Router, \<open>router_node\<close>
  returns a state: it strips and lower-cases the text and, when the result is none of
  \<open>qa\<close>, \<open>summarize\<close>, \<open>action\<close>, assigns the route \<open>qa\<close>. After it, the route is one of
  the three labels and \<open>metadata["route"]\<close> is the route. Stripping and lower-casing
  mean: a text that is a label in any mix of cases, with any whitespace before and after
  it, gets that label, and only such a text gets \<open>summarize\<close> or \<open>action\<close>.
\<close>

theorem router_node_total_classification:
  fixes e s
  defines "t \<equiv> completion e router_system (query s) (max_tokens_only 50)"
  shows
    "route (router_node e s) =
       (let r = str_lower (str_strip t)
        in if r = ''qa'' \<or> r = ''summarize'' \<or> r = ''action'' then r else ''qa'')
     \<and> (route (router_node e s) = ''qa'' \<or> route (router_node e s) = ''summarize''
        \<or> route (router_node e s) = ''action'')
     \<and> metadata (router_node e s) ''route'' = Some (route (router_node e s))
     \<and> (\<forall>pre core post l.
           t = pre @ core @ post \<and> only_whitespace pre \<and> only_whitespace post
           \<and> same_ignoring_case core l
           \<and> (l = ''qa'' \<or> l = ''summarize'' \<or> l = ''action'')
           \<longrightarrow> route (router_node e s) = l)
     \<and> (route (router_node e s) \<noteq> ''qa'' \<longrightarrow>
           (\<exists>pre core post.
              t = pre @ core @ post \<and> only_whitespace pre \<and> only_whitespace post
              \<and> same_ignoring_case core (route (router_node e s))))"
proof -
  let ?r = "str_lower (str_strip t)"
  have eq: "route (router_node e s) =
      (if ?r = ''qa'' \<or> ?r = ''summarize'' \<or> ?r = ''action'' then ?r else ''qa'')"
    unfolding t_def by (auto simp add: router_node_def Let_def)
  have lab: "route (router_node e s) = ''qa'' \<or> route (router_node e s) = ''summarize''
        \<or> route (router_node e s) = ''action''"
    by (rule router_node_route)
  have md: "metadata (router_node e s) ''route'' = Some (route (router_node e s))"
    by (simp add: router_node_def Let_def)
  have complete: "route (router_node e s) = l"
    if "t = pre @ core @ post" "only_whitespace pre" "only_whitespace post"
      "same_ignoring_case core l" "l = ''qa'' \<or> l = ''summarize'' \<or> l = ''action''"
    for pre core post l
  proof -
    from that have "?r = l" using normalised_label [of l t] by blast
    with that(5) show ?thesis by (simp only: eq) simp
  qed
  have sound: "\<exists>pre core post. t = pre @ core @ post \<and> only_whitespace pre
      \<and> only_whitespace post \<and> same_ignoring_case core (route (router_node e s))"
    if "route (router_node e s) \<noteq> ''qa''"
  proof -
    from that eq have r: "?r = route (router_node e s)" by (simp split: if_splits)
    from lab r show ?thesis using normalised_label [of "route (router_node e s)" t] by blast
  qed
  from eq lab md complete sound show ?thesis by (simp only: Let_def) blast
qed

text \<open>A capitalised label between a space and a newline.\<close>

theorem router_node_total_classification_witness:
  "only_whitespace '' '' \<and> only_whitespace ''\<newline>''
   \<and> same_ignoring_case ''Action'' ''action''
   \<and> completion (stub_env False '' Action\<newline>'' ''done'') router_system
        (query (initial_state demo_ctx ''send an email'')) (max_tokens_only 50) =
      '' '' @ ''Action'' @ ''\<newline>''
   \<and> route (router_node (stub_env False '' Action\<newline>'' ''done'')
        (initial_state demo_ctx ''send an email'')) = ''action''"
proof -
  let ?e = "stub_env False '' Action\<newline>'' ''done''"
  let ?s = "initial_state demo_ctx ''send an email''"
  have w1: "only_whitespace '' ''" by (simp add: only_whitespace_def)
  have w2: "only_whitespace ''\<newline>''" by (simp add: only_whitespace_def)
  have c: "same_ignoring_case ''Action'' ''action''"
    by (simp add: same_ignoring_case_def capital_of_def)
  have t: "completion ?e router_system (query ?s) (max_tokens_only 50) =
      '' '' @ ''Action'' @ ''\<newline>''"
    by (simp add: completion_stub)
  from router_node_total_classification [of ?e ?s] t w1 w2 c
  have "route (router_node ?e ?s) = ''action''" by blast
  with w1 w2 c t show ?thesis by blast
qed

text \<open>A garbage classification is routed as \<open>qa\<close>; an empty one too.\<close>

lemma router_node_garbage:
  "route (router_node (stub_env lg ''unknown-category-xyz'' t) s) = ''qa''"
  by (simp add: router_node_def Let_def stub_env_def completion_def provider_def kwargs_get_def
      openai_completion_def openai_request_def max_tokens_only_def str_lower_def str_strip_def
      isspace_def lower_char_def)

lemma router_node_empty:
  "route (router_node (stub_env lg [] t) s) = ''qa''"
  by (simp add: router_node_def Let_def stub_env_def completion_def provider_def kwargs_get_def
      openai_completion_def openai_request_def max_tokens_only_def str_lower_def str_strip_def)

section \<open>Provider failures\<close>





lemma completion_failing:
  "completion (failing_env p lg msg) system user kw =
     (if provider (failing_env p lg msg) = ''anthropic''
      then ''Error calling Anthropic: '' @ msg else ''Error calling OpenAI: '' @ msg)"
  by (simp add: completion_def openai_completion_def anthropic_completion_def failing_env_def)





section \<open>The action route\<close>






section \<open>Batch run and streaming run\<close>

lemma sources_of_other: "ev_type ev \<noteq> ''sources'' \<Longrightarrow> sources_of ev = []"
  by (cases ev rule: sources_of.cases) simp_all

lemma sources_of_answer_events: "concat (map sources_of (answer_events ws i)) = []"
proof -
  have "sources_of ev = []" if "ev \<in> set (answer_events ws i)" for ev
    using ev_type_answer_events [OF that] by (simp add: sources_of_other)
  then show ?thesis by simp
qed

lemma stream_result_eq:
  "stream_result (run_graph_stream e c q) = result_of (stream_final e c q)"
proof -
  let ?s1 = "router_node e (initial_state c q)"
  have src: "sources (stream_final e c q) =
      (if route ?s1 \<in> {''qa'', ''summarize''} then map source_of mock_docs else [])"
    by (simp add: stream_final_eq Let_def docs_synthesize_node docs_action_node docs_router_node
        docs_initial_state retrieve_node_def)
  have "concat (map sources_of (run_graph_stream e c q)) = sources (stream_final e c q)"
    by (simp add: stream_events_eq sources_of_answer_events src)
  then show ?thesis
    by (simp add: stream_result_def result_of_def) (simp add: stream_events_eq)
qed

lemma batch_equals_stream:
  assumes "\<not> langgraph_installed e"
  shows "run_graph e c q = Inr (stream_result (run_graph_stream e c q))"
  using assms by (simp add: run_graph_fallback stream_result_eq stream_final_eq)

lemma summarize_retrieves_without_langgraph:
  assumes "\<not> langgraph_installed e" "route (router_node e (initial_state c q)) = ''summarize''"
  shows "run_graph_state e c q =
      Inr (synthesize_node e (retrieve_node (router_node e (initial_state c q))))"
  using assms by (simp add: run_graph_state_fallback Let_def)

lemma summarize_retrieves_in_stream:
  assumes "route (router_node e (initial_state c q)) = ''summarize''"
  shows "stream_final e c q =
      synthesize_node e (retrieve_node (router_node e (initial_state c q)))"
  using assms by (simp add: stream_final_eq Let_def)

lemma summarize_skips_retrieve_with_langgraph:
  assumes "langgraph_installed e" "route (router_node e (initial_state c q)) = ''summarize''"
  shows "run_graph_state e c q = Inr (synthesize_node e (router_node e (initial_state c q)))"
  using assms by (simp add: run_graph_state_langgraph Let_def)

text \<open>
  Claim C1 says that a run routed to \<open>summarize\<close> executes Router, Retrieve, Synthesize,
  in \<open>run_graph\<close> and in \<open>run_graph_stream\<close>. The stream and the pipeline \<open>run_graph\<close>
  falls back to without \<open>langgraph\<close> do so (the two lemmas above). The graph
  \<open>build_graph\<close> declares does not: \<open>route_condition\<close> sends \<open>summarize\<close> straight to
  \<open>synthesize\<close>. With \<open>langgraph\<close> installed and a Router answering \<open>summarize\<close>, the
  batch run ends in the state Synthesize leaves after the Router alone, with no
  \<open>retrieved_docs\<close> and no \<open>sources\<close>, where the same run without \<open>langgraph\<close>, and the
  stream, have the two documents.
\<close>

theorem langgraph_summarize_skips_retrieve:
  "route (router_node (stub_env True ''summarize'' ''A summary.'')
      (initial_state demo_ctx ''Summarize the docs'')) = ''summarize''
   \<and> run_graph_state (stub_env True ''summarize'' ''A summary.'') demo_ctx ''Summarize the docs'' =
       Inr (synthesize_node (stub_env True ''summarize'' ''A summary.'')
             (router_node (stub_env True ''summarize'' ''A summary.'')
               (initial_state demo_ctx ''Summarize the docs'')))
   \<and> (\<exists>s. run_graph_state (stub_env True ''summarize'' ''A summary.'') demo_ctx
             ''Summarize the docs'' = Inr s
          \<and> retrieved_docs s = [] \<and> sources s = [])
   \<and> (\<exists>s. run_graph_state (stub_env False ''summarize'' ''A summary.'') demo_ctx
             ''Summarize the docs'' = Inr s
          \<and> retrieved_docs s = mock_docs \<and> sources s = map source_of mock_docs)
   \<and> sources (stream_final (stub_env True ''summarize'' ''A summary.'') demo_ctx
        ''Summarize the docs'') = map source_of mock_docs"
proof -
  have r: "route (router_node (stub_env lg ''summarize'' ''A summary.'')
      (initial_state demo_ctx ''Summarize the docs'')) = ''summarize''" for lg
    by (rule route_stub_summarize)
  have lgT: "langgraph_installed (stub_env True l t)" for l t
    by (simp add: stub_env_def)
  have lgF: "\<not> langgraph_installed (stub_env False l t)" for l t
    by (simp add: stub_env_def)
  note a = summarize_skips_retrieve_with_langgraph [OF lgT r]
  note b = summarize_retrieves_without_langgraph [OF lgF r]
  note c = summarize_retrieves_in_stream [OF r, of True]
  show ?thesis
    by (simp add: r a b c docs_synthesize_node docs_router_node docs_initial_state)
       (simp add: retrieve_node_def)
qed

text \<open>
  Claim C2 says that \<open>run_graph\<close> returns the answer, sources and metadata the stream
  carries. It does whenever \<open>langgraph\<close> is missing (lemma \<open>batch_equals_stream\<close>).
  With \<open>langgraph\<close> installed it returns nothing: the return statement raises
  \<open>AttributeError\<close> on the dict of \<open>graph.ainvoke\<close>, on every route, where the stream of
  the same run completes with its answer, sources and metadata. On the route
  \<open>summarize\<close> the graph's final state differs from the stream's as well: it has no
  sources, and the stream has two.
\<close>

theorem langgraph_batch_raises_where_stream_completes:
  "run_graph (stub_env True ''qa'' ''An answer.'') demo_ctx ''What is AutoBrain?'' =
     Inl (AttributeError ''answer'')
   \<and> stream_result (run_graph_stream (stub_env True ''qa'' ''An answer.'') demo_ctx
        ''What is AutoBrain?'') =
     \<lparr> res_answer = ''An answer.'', res_sources = map source_of mock_docs,
       res_metadata = [''route'' \<mapsto> ''qa''] \<rparr>
   \<and> run_graph (stub_env False ''qa'' ''An answer.'') demo_ctx ''What is AutoBrain?'' =
     Inr \<lparr> res_answer = ''An answer.'', res_sources = map source_of mock_docs,
           res_metadata = [''route'' \<mapsto> ''qa''] \<rparr>
   \<and> run_graph (stub_env True ''qa'' ''An answer.'') demo_ctx ''What is AutoBrain?'' \<noteq>
     Inr (stream_result (run_graph_stream (stub_env True ''qa'' ''An answer.'') demo_ctx
        ''What is AutoBrain?''))
   \<and> (\<exists>s. run_graph_state (stub_env True ''summarize'' ''A summary.'') demo_ctx
             ''Summarize the docs'' = Inr s \<and> sources s = [])
   \<and> res_sources (stream_result (run_graph_stream (stub_env True ''summarize'' ''A summary.'')
        demo_ctx ''Summarize the docs'')) = map source_of mock_docs
   \<and> map source_of mock_docs \<noteq> []"
proof -
  let ?q = "''What is AutoBrain?''"
  have lgT: "langgraph_installed (stub_env True l t)" for l t
    by (simp add: stub_env_def)
  have lgF: "\<not> langgraph_installed (stub_env False l t)" for l t
    by (simp add: stub_env_def)
  have r: "route (router_node (stub_env lg ''qa'' ''An answer.'') (initial_state demo_ctx ?q))
      = ''qa''" for lg
    by (rule route_stub_qa)
  have md: "metadata (router_node (stub_env lg ''qa'' ''An answer.'') (initial_state demo_ctx ?q))
      = [''route'' \<mapsto> ''qa'']" for lg
    using r [of lg] by (simp add: router_node_def Let_def initial_state_def GraphState_init_def)
  have mds: "metadata (synthesize_node e s) = metadata s" for e s
    by (simp add: synthesize_node_def Let_def)
  have mdr: "metadata (retrieve_node s) = metadata s" for s
    by (simp add: retrieve_node_def)
  have 1: "run_graph (stub_env True ''qa'' ''An answer.'') demo_ctx ?q
      = Inl (AttributeError ''answer'')"
    by (rule run_graph_langgraph [OF lgT])
  have 2: "stream_result (run_graph_stream (stub_env lg ''qa'' ''An answer.'') demo_ctx ?q) =
     \<lparr> res_answer = ''An answer.'', res_sources = map source_of mock_docs,
       res_metadata = [''route'' \<mapsto> ''qa''] \<rparr>" for lg
    by (simp add: stream_result_eq stream_final_eq Let_def r result_of_def
        answer_synthesize_stub docs_synthesize_node mds mdr md)
       (simp add: retrieve_node_def)
  have 3: "run_graph (stub_env False ''qa'' ''An answer.'') demo_ctx ?q =
     Inr \<lparr> res_answer = ''An answer.'', res_sources = map source_of mock_docs,
           res_metadata = [''route'' \<mapsto> ''qa''] \<rparr>"
    by (simp only: batch_equals_stream [OF lgF] 2)
  have rs: "route (router_node (stub_env True ''summarize'' ''A summary.'')
      (initial_state demo_ctx ''Summarize the docs'')) = ''summarize''"
    by (rule route_stub_summarize)
  have 4: "\<exists>s. run_graph_state (stub_env True ''summarize'' ''A summary.'') demo_ctx
             ''Summarize the docs'' = Inr s \<and> sources s = []"
    by (simp add: summarize_skips_retrieve_with_langgraph [OF lgT rs] docs_synthesize_node
        docs_router_node docs_initial_state)
  have 5: "res_sources (stream_result (run_graph_stream (stub_env True ''summarize'' ''A summary.'')
        demo_ctx ''Summarize the docs'')) = map source_of mock_docs"
    by (simp add: stream_result_eq summarize_retrieves_in_stream [OF rs] result_of_def
        docs_synthesize_node)
       (simp add: retrieve_node_def)
  have 6: "map source_of mock_docs \<noteq> []" by (simp add: mock_docs_def)
  from 1 2 [of True] 3 4 5 6 show ?thesis by simp
qed

end
